theory Spec2Isabelle
  imports Main "HOL-Library.Char_ord" "HOL-Library.List_Lexorder"
begin

section \<open>The persisted document\<close>

text \<open>
  The store keeps one JSON document with two sequences. A category is the dictionary
  \<^verbatim>\<open>{"id", "name", "color"}\<close>, an activity the dictionary
  \<^verbatim>\<open>{"id", "title", "category_id", "date", "duration", "notes"}\<close>. Python integers are
  unbounded, so ids and durations are \<^typ>\<open>int\<close>. Strings are \<^typ>\<open>string\<close>, ordered
  lexicographically character by character, as Python compares \<^verbatim>\<open>str\<close>; a character is
  one of HOL's 256, ordered by its code, which covers the digits and hyphens of a date.

  Every operation of \<^verbatim>\<open>DatabaseManager\<close> loads the document, works on it in memory and
  (for the mutators) dumps it again. The functions below take the loaded document and
  return the value the method returns together with the document it writes back.
  A file that cannot be read, written or parsed is outside this model.
\<close>

record category =
  cat_id :: int
  cat_name :: string
  cat_color :: string

record activity =
  act_id :: int
  act_title :: string
  act_category_id :: int
  act_date :: string
  act_duration :: int
  act_notes :: string

record document =
  categories :: "category list"
  activities :: "activity list"

text \<open>The document \<^verbatim>\<open>_initialize_db\<close> writes when no file exists. The third name is
  \<^verbatim>\<open>M\<close>, the code point U+00E9, \<^verbatim>\<open>ditation\<close>.\<close>

definition initial_document :: document where
  "initial_document =
     \<lparr>categories =
        [\<lparr>cat_id = 1, cat_name = ''Sport'', cat_color = ''#FF5733''\<rparr>,
         \<lparr>cat_id = 2, cat_name = ''Lecture'', cat_color = ''#33A8FF''\<rparr>,
         \<lparr>cat_id = 3, cat_name = ''M'' @ [CHR 0xE9] @ ''ditation'', cat_color = ''#B033FF''\<rparr>,
         \<lparr>cat_id = 4, cat_name = ''Travail'', cat_color = ''#33FF57''\<rparr>],
      activities = []\<rparr>"

section \<open>Store operations\<close>

definition get_categories :: "document \<Rightarrow> category list" where
  "get_categories data = categories data"

text \<open>\<^verbatim>\<open>new_id = 1; if xs: new_id = max(x["id"] for x in xs) + 1\<close>, on the list of ids.\<close>

definition new_id :: "int list \<Rightarrow> int" where
  "new_id ids = (case ids of [] \<Rightarrow> 1 | i # rest \<Rightarrow> fold max rest i + 1)"

definition add_category :: "document \<Rightarrow> string \<Rightarrow> string \<Rightarrow> int \<times> document" where
  "add_category data name color =
     (let nid = new_id (map cat_id (categories data))
      in (nid,
          data\<lparr>categories :=
                 categories data @ [\<lparr>cat_id = nid, cat_name = name, cat_color = color\<rparr>]\<rparr>))"

definition delete_category :: "document \<Rightarrow> int \<Rightarrow> bool \<times> document" where
  "delete_category data category_id =
     (True, data\<lparr>categories := filter (\<lambda>c. cat_id c \<noteq> category_id) (categories data)\<rparr>)"

text \<open>
  The three filters of \<^verbatim>\<open>get_activities\<close>. A date argument is \<^verbatim>\<open>None\<close> or a string and is
  tested for truthiness, so \<^verbatim>\<open>None\<close> and the empty string both skip the filter; the
  category argument is tested with \<^verbatim>\<open>is not None\<close>.
\<close>

definition get_activities ::
  "document \<Rightarrow> string option \<Rightarrow> string option \<Rightarrow> int option \<Rightarrow> activity list" where
  "get_activities data start_date end_date category_id =
     (let acts = activities data;
          acts = (case start_date of
                    None \<Rightarrow> acts
                  | Some s \<Rightarrow> if s \<noteq> [] then filter (\<lambda>a. act_date a \<ge> s) acts else acts);
          acts = (case end_date of
                    None \<Rightarrow> acts
                  | Some e \<Rightarrow> if e \<noteq> [] then filter (\<lambda>a. act_date a \<le> e) acts else acts);
          acts = (case category_id of
                    None \<Rightarrow> acts
                  | Some c \<Rightarrow> filter (\<lambda>a. act_category_id a = c) acts)
      in acts)"

definition add_activity ::
  "document \<Rightarrow> string \<Rightarrow> int \<Rightarrow> string \<Rightarrow> int \<Rightarrow> string \<Rightarrow> int \<times> document" where
  "add_activity data title category_id date duration notes =
     (let nid = new_id (map act_id (activities data))
      in (nid,
          data\<lparr>activities :=
                 activities data @
                 [\<lparr>act_id = nid, act_title = title, act_category_id = category_id,
                   act_date = date, act_duration = duration, act_notes = notes\<rparr>]\<rparr>))"

text \<open>The loop of \<^verbatim>\<open>update_activity\<close>: the first activity with the id is rewritten, then
  \<^verbatim>\<open>break\<close> leaves the rest alone.\<close>

fun update_first ::
  "int \<Rightarrow> string \<Rightarrow> int \<Rightarrow> int \<Rightarrow> string \<Rightarrow> activity list \<Rightarrow> activity list" where
  "update_first activity_id title category_id duration notes [] = []"
| "update_first activity_id title category_id duration notes (a # rest) =
     (if act_id a = activity_id
      then a\<lparr>act_title := title, act_category_id := category_id,
             act_duration := duration, act_notes := notes\<rparr> # rest
      else a # update_first activity_id title category_id duration notes rest)"

definition update_activity ::
  "document \<Rightarrow> int \<Rightarrow> string \<Rightarrow> int \<Rightarrow> int \<Rightarrow> string \<Rightarrow> bool \<times> document" where
  "update_activity data activity_id title category_id duration notes =
     (True,
      data\<lparr>activities :=
             update_first activity_id title category_id duration notes (activities data)\<rparr>)"

definition delete_activity :: "document \<Rightarrow> int \<Rightarrow> bool \<times> document" where
  "delete_activity data activity_id =
     (True, data\<lparr>activities := filter (\<lambda>a. act_id a \<noteq> activity_id) (activities data)\<rparr>)"

section \<open>Sequences of store operations\<close>

text \<open>A caller's successive calls to \<^verbatim>\<open>add_category\<close> and \<^verbatim>\<open>delete_category\<close>, run in
  order on the document; the result lists the ids the adds returned, in call order,
  with the final document.\<close>

datatype cat_op = AddCategory string string | DeleteCategory int

fun run_cat_ops :: "document \<Rightarrow> cat_op list \<Rightarrow> int list \<times> document" where
  "run_cat_ops data [] = ([], data)"
| "run_cat_ops data (AddCategory name color # ops) =
     (let (i, data') = add_category data name color;
          (ids, data'') = run_cat_ops data' ops
      in (i # ids, data''))"
| "run_cat_ops data (DeleteCategory k # ops) =
     run_cat_ops (snd (delete_category data k)) ops"

text \<open>\<open>spares_latest data latest ops\<close>: no delete in \<open>ops\<close> is called with the id that the
  add before it returned most recently (\<open>latest\<close>, \<open>None\<close> before the first add).\<close>

fun spares_latest :: "document \<Rightarrow> int option \<Rightarrow> cat_op list \<Rightarrow> bool" where
  "spares_latest data latest [] = True"
| "spares_latest data latest (AddCategory name color # ops) =
     (let (i, data') = add_category data name color in spares_latest data' (Some i) ops)"
| "spares_latest data latest (DeleteCategory k # ops) =
     (latest \<noteq> Some k \<and> spares_latest (snd (delete_category data k)) latest ops)"

text \<open>All five mutators as one operation type, and the invariant of the document.\<close>

datatype store_op =
    AddCat string string
  | DelCat int
  | AddAct string int string int string
  | UpdAct int string int int string
  | DelAct int

fun apply_op :: "store_op \<Rightarrow> document \<Rightarrow> document" where
  "apply_op (AddCat name color) data = snd (add_category data name color)"
| "apply_op (DelCat k) data = snd (delete_category data k)"
| "apply_op (AddAct title c date duration notes) data =
     snd (add_activity data title c date duration notes)"
| "apply_op (UpdAct k title c duration notes) data =
     snd (update_activity data k title c duration notes)"
| "apply_op (DelAct k) data = snd (delete_activity data k)"

definition ids_unique :: "document \<Rightarrow> bool" where
  "ids_unique data \<longleftrightarrow>
     distinct (map cat_id (categories data)) \<and> distinct (map act_id (activities data))"

section \<open>The calendar view\<close>

text \<open>
  \<^verbatim>\<open>current_date\<close> is a \<^verbatim>\<open>datetime\<close>; only its date part is read. Python's constructor
  \<^verbatim>\<open>datetime(year, month, day)\<close> raises \<^verbatim>\<open>ValueError\<close> unless
  \<^verbatim>\<open>MINYEAR <= year <= MAXYEAR\<close> (1 and 9999), \<^verbatim>\<open>1 <= month <= 12\<close> and the day exists
  in that month.
\<close>

record datetime =
  year :: int
  month :: int
  day :: int

datatype error = ValueError

definition is_leap :: "int \<Rightarrow> bool" where
  "is_leap y \<longleftrightarrow> y mod 4 = 0 \<and> (y mod 100 \<noteq> 0 \<or> y mod 400 = 0)"

definition days_in_month :: "int \<Rightarrow> int \<Rightarrow> int" where
  "days_in_month y m =
     (if m = 2 then (if is_leap y then 29 else 28)
      else if m = 4 \<or> m = 6 \<or> m = 9 \<or> m = 11 then 30 else 31)"

definition new_datetime :: "int \<Rightarrow> int \<Rightarrow> int \<Rightarrow> error + datetime" where
  "new_datetime y m d =
     (if 1 \<le> y \<and> y \<le> 9999 \<and> 1 \<le> m \<and> m \<le> 12 \<and> 1 \<le> d \<and> d \<le> days_in_month y m
      then Inr \<lparr>year = y, month = m, day = d\<rparr>
      else Inl ValueError)"

text \<open>
  \<^verbatim>\<open>_prev_month\<close> and \<^verbatim>\<open>_next_month\<close>, from the current date to the value assigned to
  \<^verbatim>\<open>self.current_date\<close>. When the constructor raises, the assignment does not happen
  and the exception leaves the method: the result is \<open>Inl ValueError\<close>.
\<close>

definition prev_month :: "datetime \<Rightarrow> error + datetime" where
  "prev_month current_date =
     (let y = year current_date;
          m = month current_date - 1;
          (y, m) = (if m < 1 then (y - 1, 12) else (y, m))
      in new_datetime y m 1)"

definition next_month :: "datetime \<Rightarrow> error + datetime" where
  "next_month current_date =
     (let y = year current_date;
          m = month current_date + 1;
          (y, m) = (if m > 12 then (y + 1, 1) else (y, m))
      in new_datetime y m 1)"

text \<open>
  \<^verbatim>\<open>_add_activity_indicators\<close>. The cell's date is \<^verbatim>\<open>None\<close> or a \<^verbatim>\<open>datetime\<close>; the
  formatter \<open>strftime\<close> stands for \<^verbatim>\<open>date.strftime("%Y-%m-%d")\<close>. The dictionary
  \<^verbatim>\<open>categories\<close> maps an id to the last category carrying it. The dictionary
  \<^verbatim>\<open>by_category\<close> keeps its keys in insertion order, so it is an association list here.
  The result lists the background colours of the indicator frames, in the order they are
  packed.
\<close>

definition categories_by_id :: "category list \<Rightarrow> (int \<rightharpoonup> category)" where
  "categories_by_id cats = fold (\<lambda>cat m. m(cat_id cat \<mapsto> cat)) cats Map.empty"

definition by_category_add ::
  "activity \<Rightarrow> (int \<times> activity list) list \<Rightarrow> (int \<times> activity list) list" where
  "by_category_add a by_category =
     (let k = act_category_id a;
          by_category = (if k \<notin> set (map fst by_category)
                         then by_category @ [(k, [])] else by_category)
      in map (\<lambda>(k', acts). if k' = k then (k', acts @ [a]) else (k', acts)) by_category)"

definition add_activity_indicators ::
  "(datetime \<Rightarrow> string) \<Rightarrow> document \<Rightarrow> datetime option \<Rightarrow> string list" where
  "add_activity_indicators strftime data date =
     (case date of
        None \<Rightarrow> []
      | Some d \<Rightarrow>
          (let date_str = strftime d;
               acts = get_activities data (Some date_str) (Some date_str) None;
               cats = categories_by_id (get_categories data);
               by_category = fold by_category_add acts []
           in concat (map (\<lambda>(k, acts).
                             case cats k of None \<Rightarrow> [] | Some cat \<Rightarrow> [cat_color cat])
                          by_category)))"

text \<open>A formatter for the years 1 to 9999, as CPython on glibc prints \<^verbatim>\<open>%Y-%m-%d\<close>: the
  year in decimal without padding, month and day with two digits. Other C libraries pad
  the year to four digits; from the year 1000 on all agree.\<close>

definition digit :: "int \<Rightarrow> char" where
  "digit n = ''0123456789'' ! nat (n mod 10)"

definition strftime_ymd :: "datetime \<Rightarrow> string" where
  "strftime_ymd d =
     dropWhile (\<lambda>c. c = CHR ''0'')
       [digit (year d div 1000), digit (year d div 100), digit (year d div 10), digit (year d)]
     @ ''-'' @ [digit (month d div 10), digit (month d)]
     @ ''-'' @ [digit (day d div 10), digit (day d)]"

section \<open>A fixture\<close>

text \<open>The seeded categories with activities on the dates of the range test.\<close>

definition fixture :: document where
  "fixture = initial_document\<lparr>activities :=
     [\<lparr>act_id = 1, act_title = ''run'', act_category_id = 1, act_date = ''2025-01-05'',
       act_duration = 30, act_notes = ''''\<rparr>,
      \<lparr>act_id = 2, act_title = ''read'', act_category_id = 2, act_date = ''2025-01-10'',
       act_duration = 45, act_notes = ''''\<rparr>,
      \<lparr>act_id = 3, act_title = ''swim'', act_category_id = 1, act_date = ''2025-01-15'',
       act_duration = 60, act_notes = ''''\<rparr>,
      \<lparr>act_id = 4, act_title = ''walk'', act_category_id = 1, act_date = ''2025-01-15'',
       act_duration = 20, act_notes = ''''\<rparr>,
      \<lparr>act_id = 5, act_title = ''work'', act_category_id = 4, act_date = ''2025-01-20'',
       act_duration = 90, act_notes = ''''\<rparr>,
      \<lparr>act_id = 6, act_title = ''lost'', act_category_id = 9, act_date = ''2025-01-25'',
       act_duration = 10, act_notes = ''''\<rparr>,
      \<lparr>act_id = 7, act_title = ''book'', act_category_id = 2, act_date = ''2025-01-15'',
       act_duration = 25, act_notes = ''''\<rparr>]\<rparr>"

section \<open>Deleting a category\<close>

text \<open>
  Claim C9. \<^verbatim>\<open>delete_category(id)\<close> keeps exactly the categories whose id differs from
  the argument, in their order, so every category with the id is removed; it returns
  \<^verbatim>\<open>True\<close> whether or not one matched; and the activities sequence of the document
  is the one it read, also when activities refer to the deleted category.
\<close>

theorem delete_category_frame:
  "fst (delete_category data cid) = True \<and>
   categories (snd (delete_category data cid)) =
     filter (\<lambda>c. cat_id c \<noteq> cid) (categories data) \<and>
   cid \<notin> cat_id ` set (categories (snd (delete_category data cid))) \<and>
   activities (snd (delete_category data cid)) = activities data"
  by (auto simp: delete_category_def)

section \<open>Querying activities\<close>

lemma get_activities_subset: "set (get_activities data s e c) \<subseteq> set (activities data)"
  by (auto simp: get_activities_def Let_def split: option.splits if_splits)

text \<open>
  Claim C2. With non-empty bounds \<open>s\<close> and \<open>e\<close>, \<^verbatim>\<open>get_activities\<close> returns the stored
  activities, in stored order, whose date lies in the closed range from \<open>s\<close> to \<open>e\<close> in the
  lexicographic order of strings and, when a category is given, whose category is that
  one; all conditions hold together. With one non-empty day \<open>d\<close> as both bounds it
  returns the activities dated \<open>d\<close>.
\<close>

theorem get_activities_closed_range:
  assumes "s \<noteq> []" and "e \<noteq> []" and "d \<noteq> []"
  shows "get_activities data (Some s) (Some e) c =
           filter (\<lambda>a. s \<le> act_date a \<and> act_date a \<le> e \<and>
                        (case c of None \<Rightarrow> True | Some k \<Rightarrow> act_category_id a = k))
                  (activities data)
         \<and> get_activities data (Some d) (Some d) None =
           filter (\<lambda>a. act_date a = d) (activities data)"
proof -
  have both: "(d \<le> x \<and> x \<le> d) = (x = d)" for x :: string
    by auto
  show ?thesis
    using assms by (cases c) (simp_all add: get_activities_def both conj_commute conj_left_commute)
qed

theorem get_activities_closed_range_witness:
  "''2025-01-10'' \<noteq> [] \<and> ''2025-01-20'' \<noteq> [] \<and> ''2025-01-15'' \<noteq> [] \<and>
   map act_id (get_activities fixture (Some ''2025-01-10'') (Some ''2025-01-20'') (Some 1))
     = [3, 4] \<and>
   map act_id (get_activities fixture (Some ''2025-01-15'') (Some ''2025-01-15'') None)
     = [3, 4, 7]"
  using get_activities_closed_range
          [of "''2025-01-10''" "''2025-01-20''" "''2025-01-15''" fixture "Some 1"]
  by (simp add: fixture_def)

text \<open>
  Claim C10. An empty string as \<^verbatim>\<open>start_date\<close> or \<^verbatim>\<open>end_date\<close> gives the result of
  passing \<^verbatim>\<open>None\<close>: the bound is not applied. On the fixture, \<^verbatim>\<open>end_date=""\<close> returns all
  seven activities, none of which an inclusive upper bound \<^verbatim>\<open>""\<close> would keep. The category
  filter is applied for every integer, 0 included.
\<close>

theorem get_activities_empty_string:
  "get_activities data (Some '''') e c = get_activities data None e c \<and>
   get_activities data s (Some '''') c = get_activities data s None c \<and>
   get_activities data None None (Some 0) =
     filter (\<lambda>a. act_category_id a = 0) (activities data) \<and>
   get_activities fixture None (Some '''') None = activities fixture \<and>
   length (activities fixture) = 7 \<and>
   filter (\<lambda>a. act_date a \<le> '''') (activities fixture) = []"
  by (simp add: get_activities_def fixture_def)

section \<open>Deleting and updating activities\<close>

lemma delete_activity_twice:
  "delete_activity (snd (delete_activity data k)) k = (True, snd (delete_activity data k))"
  by (simp add: delete_activity_def)

text \<open>
  Claim C8. After \<^verbatim>\<open>delete_activity(k)\<close>, no result of \<^verbatim>\<open>get_activities\<close> on the written
  document, under any filters, holds an activity with id \<open>k\<close>. The call returns \<^verbatim>\<open>True\<close>,
  and a second call with the same id returns \<^verbatim>\<open>True\<close> and writes the same document.
\<close>

theorem delete_activity_removes:
  "(\<forall>a \<in> set (get_activities (snd (delete_activity data k)) s e c). act_id a \<noteq> k) \<and>
   fst (delete_activity data k) = True \<and>
   delete_activity (snd (delete_activity data k)) k = (True, snd (delete_activity data k))"
proof -
  define d where "d = snd (delete_activity data k)"
  have acts: "activities d = filter (\<lambda>a. act_id a \<noteq> k) (activities data)"
    by (simp add: d_def delete_activity_def)
  have "set (get_activities d s e c) \<subseteq> set (activities d)"
    by (rule get_activities_subset)
  then have gone: "\<forall>a \<in> set (get_activities d s e c). act_id a \<noteq> k"
    unfolding acts by auto
  have ret: "fst (delete_activity data k) = True"
    by (simp add: delete_activity_def)
  show ?thesis
    using gone ret delete_activity_twice [of data k] unfolding d_def by blast
qed

theorem delete_activity_removes_witness:
  "3 \<notin> act_id ` set (get_activities (snd (delete_activity fixture 3)) None None None) \<and>
   map act_id (get_activities (snd (delete_activity fixture 3)) None None None)
     = [1, 2, 4, 5, 6, 7] \<and>
   delete_activity (snd (delete_activity fixture 3)) 3 = (True, snd (delete_activity fixture 3))"
proof -
  note inst = delete_activity_removes [of fixture 3 None None None]
  have gone: "\<forall>a \<in> set (get_activities (snd (delete_activity fixture 3)) None None None).
      act_id a \<noteq> 3"
    by (rule inst [THEN conjunct1])
  have absent: "3 \<notin> act_id ` set (get_activities (snd (delete_activity fixture 3)) None None None)"
  proof
    assume "3 \<in> act_id ` set (get_activities (snd (delete_activity fixture 3)) None None None)"
    then obtain a where "a \<in> set (get_activities (snd (delete_activity fixture 3)) None None None)"
      and "act_id a = 3"
      by (auto simp only: image_iff)
    with gone show False by (auto simp only:)
  qed
  have ids: "map act_id (get_activities (snd (delete_activity fixture 3)) None None None)
          = [1, 2, 4, 5, 6, 7]"
    by (simp add: fixture_def delete_activity_def get_activities_def)
  have twice: "delete_activity (snd (delete_activity fixture 3)) 3 =
      (True, snd (delete_activity fixture 3))"
    by (rule inst [THEN conjunct2, THEN conjunct2])
  from absent ids twice show ?thesis
    by (intro conjI)
qed

lemma update_first_absent:
  "k \<notin> act_id ` set acts \<Longrightarrow> update_first k t c d n acts = acts"
  by (induction acts) auto

text \<open>
  Claim C4. When no activity has the id \<open>k\<close>, \<^verbatim>\<open>update_activity\<close> and \<^verbatim>\<open>delete_activity\<close>
  return \<^verbatim>\<open>True\<close> and write the document they read; when no category has the id,
  \<^verbatim>\<open>delete_category\<close> does the same. The functions are total: no branch raises.
\<close>

theorem absent_id_noop:
  "(k \<notin> act_id ` set (activities data) \<longrightarrow>
      update_activity data k title c duration notes = (True, data) \<and>
      delete_activity data k = (True, data)) \<and>
   (k \<notin> cat_id ` set (categories data) \<longrightarrow> delete_category data k = (True, data))"
proof -
  have acts: "filter (\<lambda>a. act_id a \<noteq> k) (activities data) = activities data"
    if "k \<notin> act_id ` set (activities data)"
    using that by (auto simp: filter_id_conv)
  have cats: "filter (\<lambda>c. cat_id c \<noteq> k) (categories data) = categories data"
    if "k \<notin> cat_id ` set (categories data)"
    using that by (auto simp: filter_id_conv)
  show ?thesis
    by (simp add: update_activity_def delete_activity_def delete_category_def
          update_first_absent acts cats)
qed

theorem absent_id_noop_witness:
  "8 \<notin> act_id ` set (activities fixture) \<and>
   update_activity fixture 8 ''x'' 1 5 '''' = (True, fixture) \<and>
   delete_activity fixture 8 = (True, fixture) \<and>
   8 \<notin> cat_id ` set (categories fixture) \<and> delete_category fixture 8 = (True, fixture)"
proof -
  have a: "8 \<notin> act_id ` set (activities fixture)"
    by (simp add: fixture_def)
  have c: "8 \<notin> cat_id ` set (categories fixture)"
    by (simp add: fixture_def initial_document_def)
  from a c absent_id_noop [of 8 fixture "''x''" 1 5 "''''"] show ?thesis
    by blast
qed

lemma update_first_decompose:
  "k \<in> act_id ` set acts \<Longrightarrow>
   \<exists>pre a post. acts = pre @ a # post \<and> k \<notin> act_id ` set pre \<and> act_id a = k \<and>
     update_first k t c d n acts =
       pre @ a\<lparr>act_title := t, act_category_id := c, act_duration := d, act_notes := n\<rparr> # post"
proof (induction acts)
  case Nil
  then show ?case by simp
next
  case (Cons x acts)
  show ?case
  proof (cases "act_id x = k")
    case True
    then have "x # acts = [] @ x # acts \<and> k \<notin> act_id ` set [] \<and> act_id x = k \<and>
        update_first k t c d n (x # acts) =
          [] @ x\<lparr>act_title := t, act_category_id := c, act_duration := d, act_notes := n\<rparr> # acts"
      by simp
    then show ?thesis by blast
  next
    case False
    with Cons.prems have "k \<in> act_id ` set acts" by auto
    from Cons.IH [OF this] obtain pre a post where
      h: "acts = pre @ a # post" "k \<notin> act_id ` set pre" "act_id a = k"
         "update_first k t c d n acts =
            pre @ a\<lparr>act_title := t, act_category_id := c, act_duration := d, act_notes := n\<rparr> # post"
      by blast
    from h False have "x # acts = (x # pre) @ a # post \<and> k \<notin> act_id ` set (x # pre) \<and> act_id a = k \<and>
        update_first k t c d n (x # acts) =
          (x # pre) @ a\<lparr>act_title := t, act_category_id := c, act_duration := d, act_notes := n\<rparr> # post"
      by auto
    then show ?thesis by blast
  qed
qed

text \<open>
  Claim C5. When an activity has the id \<open>k\<close>, the stored sequence splits around the first
  such activity \<open>a\<close>, and \<^verbatim>\<open>update_activity\<close> writes the same sequence with \<open>a\<close> replaced
  by \<open>a\<close> carrying the new title, category, duration and notes: the date and id of \<open>a\<close>,
  every other activity and the categories are as they were. It returns \<^verbatim>\<open>True\<close>.
\<close>

theorem update_activity_frame:
  assumes "k \<in> act_id ` set (activities data)"
  shows "\<exists>pre a post a'.
           activities data = pre @ a # post \<and> k \<notin> act_id ` set pre \<and> act_id a = k \<and>
           update_activity data k title c duration notes =
             (True, data\<lparr>activities := pre @ a' # post\<rparr>) \<and>
           act_title a' = title \<and> act_category_id a' = c \<and>
           act_duration a' = duration \<and> act_notes a' = notes \<and>
           act_date a' = act_date a \<and> act_id a' = act_id a \<and>
           categories (snd (update_activity data k title c duration notes)) = categories data"
proof -
  from update_first_decompose [OF assms, where t = title and c = c and d = duration and n = "notes"]
  obtain pre a post where
    h: "activities data = pre @ a # post" "k \<notin> act_id ` set pre" "act_id a = k"
       "update_first k title c duration notes (activities data) =
          pre @ a\<lparr>act_title := title, act_category_id := c,
                   act_duration := duration, act_notes := notes\<rparr> # post"
    by blast
  define a' where
    "a' = a\<lparr>act_title := title, act_category_id := c,
             act_duration := duration, act_notes := notes\<rparr>"
  have fields: "act_title a' = title \<and> act_category_id a' = c \<and>
      act_duration a' = duration \<and> act_notes a' = notes \<and>
      act_date a' = act_date a \<and> act_id a' = act_id a"
    by (simp add: a'_def)
  have upd: "update_activity data k title c duration notes =
      (True, data\<lparr>activities := pre @ a' # post\<rparr>)"
    by (simp add: update_activity_def h(4) a'_def)
  have cats: "categories (snd (update_activity data k title c duration notes)) = categories data"
    by (simp add: update_activity_def)
  from h(1-3) fields upd cats show ?thesis by blast
qed

theorem update_activity_frame_witness:
  "3 \<in> act_id ` set (activities fixture) \<and>
   (\<exists>pre a post a'.
      activities fixture = pre @ a # post \<and> 3 \<notin> act_id ` set pre \<and> act_id a = 3 \<and>
      update_activity fixture 3 ''dive'' 2 15 ''deep'' =
        (True, fixture\<lparr>activities := pre @ a' # post\<rparr>) \<and>
      act_title a' = ''dive'' \<and> act_category_id a' = 2 \<and>
      act_duration a' = 15 \<and> act_notes a' = ''deep'' \<and>
      act_date a' = act_date a \<and> act_id a' = act_id a \<and>
      categories (snd (update_activity fixture 3 ''dive'' 2 15 ''deep'')) = categories fixture) \<and>
   map act_date (activities (snd (update_activity fixture 3 ''dive'' 2 15 ''deep''))) =
     map act_date (activities fixture) \<and>
   map act_title (activities (snd (update_activity fixture 3 ''dive'' 2 15 ''deep''))) =
     [''run'', ''read'', ''dive'', ''walk'', ''work'', ''lost'', ''book'']"
proof -
  have m: "3 \<in> act_id ` set (activities fixture)"
    by (simp add: fixture_def)
  have d: "map act_date (activities (snd (update_activity fixture 3 ''dive'' 2 15 ''deep''))) =
     map act_date (activities fixture)"
    by (simp add: fixture_def update_activity_def)
  have t: "map act_title (activities (snd (update_activity fixture 3 ''dive'' 2 15 ''deep''))) =
     [''run'', ''read'', ''dive'', ''walk'', ''work'', ''lost'', ''book'']"
    by (simp add: fixture_def update_activity_def)
  from m d t update_activity_frame [of 3 fixture "''dive''" 2 15 "''deep''"] show ?thesis
    by blast
qed

section \<open>Identifier assignment\<close>

lemma new_id_greater: "i \<in> set ids \<Longrightarrow> i < new_id ids"
proof (cases ids)
  case Nil
  then show "i \<in> set ids \<Longrightarrow> i < new_id ids" by simp
next
  case (Cons j rest)
  assume "i \<in> set ids"
  then have "i \<le> Max (set (j # rest))"
    using Cons by (intro Max_ge) auto
  also have "Max (set (j # rest)) = fold max rest j"
    by (rule Max.set_eq_fold)
  finally show "i < new_id ids"
    using Cons by (simp add: new_id_def)
qed

lemma new_id_fresh: "new_id ids \<notin> set ids"
  using new_id_greater [of "new_id ids" ids] by auto

lemma map_act_id_update_first:
  "map act_id (update_first k t c d n acts) = map act_id acts"
  by (induction acts) auto

lemma ids_unique_add_category: "ids_unique data \<Longrightarrow> ids_unique (snd (add_category data name color))"
  using new_id_fresh [of "map cat_id (categories data)"]
  by (simp add: ids_unique_def add_category_def Let_def)

lemma ids_unique_delete_category: "ids_unique data \<Longrightarrow> ids_unique (snd (delete_category data k))"
  by (simp add: ids_unique_def delete_category_def distinct_map_filter)

lemma ids_unique_add_activity:
  "ids_unique data \<Longrightarrow> ids_unique (snd (add_activity data title c date duration notes))"
  using new_id_fresh [of "map act_id (activities data)"]
  by (simp add: ids_unique_def add_activity_def Let_def)

lemma ids_unique_update_activity:
  "ids_unique data \<Longrightarrow> ids_unique (snd (update_activity data k title c duration notes))"
  by (simp add: ids_unique_def update_activity_def map_act_id_update_first)

lemma ids_unique_delete_activity: "ids_unique data \<Longrightarrow> ids_unique (snd (delete_activity data k))"
  by (simp add: ids_unique_def delete_activity_def distinct_map_filter)

lemma ids_unique_apply_op: "ids_unique data \<Longrightarrow> ids_unique (apply_op op data)"
  by (cases op)
     (simp_all add: ids_unique_add_category ids_unique_delete_category ids_unique_add_activity
        ids_unique_update_activity ids_unique_delete_activity)

lemma ids_unique_fold: "ids_unique data \<Longrightarrow> ids_unique (fold apply_op ops data)"
  by (induction ops arbitrary: data) (simp_all add: ids_unique_apply_op)

lemma ids_unique_initial: "ids_unique initial_document"
  by (simp add: ids_unique_def initial_document_def)

text \<open>
  Claim C3. The seeded document has pairwise distinct category ids and pairwise distinct
  activity ids, and when a document has, so has the document written by each of
  \<^verbatim>\<open>add_category\<close>, \<^verbatim>\<open>delete_category\<close>, \<^verbatim>\<open>add_activity\<close>, \<^verbatim>\<open>update_activity\<close> and
  \<^verbatim>\<open>delete_activity\<close>, hence by every sequence of these operations.
\<close>

theorem ids_unique_preserved:
  "ids_unique initial_document \<and>
   (ids_unique data \<longrightarrow>
      ids_unique (snd (add_category data name color)) \<and>
      ids_unique (snd (delete_category data k)) \<and>
      ids_unique (snd (add_activity data title c date duration notes)) \<and>
      ids_unique (snd (update_activity data k title c duration notes)) \<and>
      ids_unique (snd (delete_activity data k)) \<and>
      ids_unique (fold apply_op ops data))"
  by (intro conjI impI ids_unique_initial ids_unique_add_category ids_unique_delete_category
        ids_unique_add_activity ids_unique_update_activity ids_unique_delete_activity
        ids_unique_fold)

theorem ids_unique_preserved_witness:
  "ids_unique fixture \<and>
   ids_unique (snd (add_category fixture ''Yoga'' ''#abc'')) \<and>
   ids_unique (snd (delete_category fixture 2)) \<and>
   ids_unique (snd (add_activity fixture ''nap'' 3 ''2025-02-01'' 20 '''')) \<and>
   ids_unique (snd (update_activity fixture 2 ''nap'' 3 20 '''')) \<and>
   ids_unique (snd (delete_activity fixture 2)) \<and>
   ids_unique (fold apply_op [AddCat ''Yoga'' ''#abc'', DelCat 5, AddCat ''Chess'' ''#123''] fixture)"
proof -
  have u: "ids_unique fixture"
    by (simp add: ids_unique_def fixture_def initial_document_def)
  have "ids_unique fixture \<longrightarrow>
      ids_unique (snd (add_category fixture ''Yoga'' ''#abc'')) \<and>
      ids_unique (snd (delete_category fixture 2)) \<and>
      ids_unique (snd (add_activity fixture ''nap'' 3 ''2025-02-01'' 20 '''')) \<and>
      ids_unique (snd (update_activity fixture 2 ''nap'' 3 20 '''')) \<and>
      ids_unique (snd (delete_activity fixture 2)) \<and>
      ids_unique (fold apply_op
        [AddCat ''Yoga'' ''#abc'', DelCat 5, AddCat ''Chess'' ''#123''] fixture)"
    by (rule conjunct2 [OF ids_unique_preserved])
  with u show ?thesis by blast
qed

lemma run_cat_ops_above_latest:
  "spares_latest data (Some r) ops \<Longrightarrow>
   r \<in> cat_id ` set (categories data) \<Longrightarrow>
   \<forall>c \<in> set (categories data). cat_id c \<le> r \<Longrightarrow>
   sorted_wrt (<) (fst (run_cat_ops data ops)) \<and> (\<forall>i \<in> set (fst (run_cat_ops data ops)). r < i)"
proof (induction ops arbitrary: data r)
  case Nil
  then show ?case by simp
next
  case (Cons op ops)
  show ?case
  proof (cases op)
    case (AddCategory name color)
    define i where "i = new_id (map cat_id (categories data))"
    define data' where
      "data' = data\<lparr>categories :=
                 categories data @ [\<lparr>cat_id = i, cat_name = name, cat_color = color\<rparr>]\<rparr>"
    have add: "add_category data name color = (i, data')"
      by (simp add: add_category_def i_def data'_def Let_def)
    have gt: "j < i" if "j \<in> cat_id ` set (categories data)" for j
      using that new_id_greater [of j "map cat_id (categories data)"] by (auto simp: i_def)
    have "r < i"
      using gt Cons.prems(2) by blast
    have sp: "spares_latest data' (Some i) ops"
      using Cons.prems(1) by (simp add: AddCategory add)
    have mem: "i \<in> cat_id ` set (categories data')"
      by (simp add: data'_def)
    have le: "\<forall>c \<in> set (categories data'). cat_id c \<le> i"
      using gt by (auto simp: data'_def intro: less_imp_le)
    from Cons.IH [OF sp mem le]
    have ih: "sorted_wrt (<) (fst (run_cat_ops data' ops))"
             "\<forall>j \<in> set (fst (run_cat_ops data' ops)). i < j"
      by blast+
    have run: "fst (run_cat_ops data (op # ops)) = i # fst (run_cat_ops data' ops)"
      by (simp add: AddCategory add split: prod.splits)
    show ?thesis
      unfolding run using ih \<open>r < i\<close> by auto
  next
    case (DeleteCategory k)
    define data' where "data' = snd (delete_category data k)"
    have cats: "categories data' = filter (\<lambda>c. cat_id c \<noteq> k) (categories data)"
      by (simp add: data'_def delete_category_def)
    have "k \<noteq> r" and sp: "spares_latest data' (Some r) ops"
      using Cons.prems(1) by (auto simp: DeleteCategory data'_def)
    have mem: "r \<in> cat_id ` set (categories data')"
      using Cons.prems(2) \<open>k \<noteq> r\<close> by (auto simp: cats)
    have le: "\<forall>c \<in> set (categories data'). cat_id c \<le> r"
      using Cons.prems(3) by (simp add: cats)
    have run: "run_cat_ops data (op # ops) = run_cat_ops data' ops"
      by (simp add: DeleteCategory data'_def)
    show ?thesis
      unfolding run by (rule Cons.IH [OF sp mem le])
  qed
qed

lemma add_category_latest:
  "fst (add_category data name color) \<in>
     cat_id ` set (categories (snd (add_category data name color))) \<and>
   (\<forall>c \<in> set (categories (snd (add_category data name color))).
      cat_id c \<le> fst (add_category data name color))"
  using new_id_greater [of _ "map cat_id (categories data)"]
  by (auto simp: add_category_def Let_def intro: less_imp_le)

lemma run_cat_ops_increasing:
  "spares_latest data None ops \<Longrightarrow> sorted_wrt (<) (fst (run_cat_ops data ops))"
proof (induction ops arbitrary: data)
  case Nil
  then show ?case by simp
next
  case (Cons op ops)
  show ?case
  proof (cases op)
    case (AddCategory name color)
    obtain i data' where add: "add_category data name color = (i, data')"
      by (cases "add_category data name color")
    have sp: "spares_latest data' (Some i) ops"
      using Cons.prems by (simp add: AddCategory add)
    from add_category_latest [of data name color]
    have "i \<in> cat_id ` set (categories data')" "\<forall>c \<in> set (categories data'). cat_id c \<le> i"
      by (simp_all add: add)
    from run_cat_ops_above_latest [OF sp this]
    have "sorted_wrt (<) (fst (run_cat_ops data' ops))"
         "\<forall>j \<in> set (fst (run_cat_ops data' ops)). i < j"
      by blast+
    moreover have "fst (run_cat_ops data (op # ops)) = i # fst (run_cat_ops data' ops)"
      by (simp add: AddCategory add split: prod.splits)
    ultimately show ?thesis by simp
  next
    case (DeleteCategory k)
    then show ?thesis
      using Cons.prems Cons.IH [of "snd (delete_category data k)"] by simp
  qed
qed

lemma increasing_distinct: "sorted_wrt (<) (xs :: int list) \<Longrightarrow> distinct xs"
  by (induction xs) auto

lemma new_id_Max: "new_id ids = (if ids = [] then 1 else Max (set ids) + 1)"
proof (cases ids)
  case Nil
  then show ?thesis by (simp add: new_id_def)
next
  case (Cons i rest)
  have "fold max rest i = Max (set (i # rest))"
    by (rule Max.set_eq_fold [symmetric])
  then show ?thesis
    using Cons by (simp add: new_id_def)
qed

lemma add_category_returns:
  "fst (add_category data name color) =
     (if categories data = [] then 1 else Max (cat_id ` set (categories data)) + 1)"
  by (simp add: add_category_def Let_def new_id_Max)

text \<open>
  Claim C1, as the code has it. \<^verbatim>\<open>add_category\<close> returns the greatest id in the store
  plus one (1 for an empty store), so the id is greater than every id then stored. Over a
  sequence of \<^verbatim>\<open>add_category\<close> and \<^verbatim>\<open>delete_category\<close> calls, from any document, the ids
  returned by the adds are strictly increasing, hence pairwise distinct, provided no delete
  is called with the id that the latest add before it returned.
\<close>

theorem add_category_ids_increasing:
  assumes "spares_latest data None ops"
  shows "sorted_wrt (<) (fst (run_cat_ops data ops)) \<and>
         distinct (fst (run_cat_ops data ops)) \<and>
         (\<forall>c \<in> set (categories data). cat_id c < fst (add_category data name color)) \<and>
         fst (add_category data name color) =
           (if categories data = [] then 1 else Max (cat_id ` set (categories data)) + 1)"
proof -
  have inc: "sorted_wrt (<) (fst (run_cat_ops data ops))"
    using assms by (rule run_cat_ops_increasing)
  then have dist: "distinct (fst (run_cat_ops data ops))"
    by (rule increasing_distinct)
  have above: "\<forall>c \<in> set (categories data). cat_id c < fst (add_category data name color)"
    using new_id_greater [of _ "map cat_id (categories data)"]
    by (auto simp: add_category_def Let_def)
  have ret: "fst (add_category data name color) =
      (if categories data = [] then 1 else Max (cat_id ` set (categories data)) + 1)"
    by (rule add_category_returns)
  from inc dist above ret show ?thesis
    by (intro conjI)
qed

theorem add_category_ids_increasing_witness:
  "spares_latest \<lparr>categories = [], activities = []\<rparr> None
     [AddCategory ''A'' ''#111'', AddCategory ''B'' ''#222'', DeleteCategory 1,
      AddCategory ''C'' ''#333''] \<and>
   fst (run_cat_ops \<lparr>categories = [], activities = []\<rparr>
     [AddCategory ''A'' ''#111'', AddCategory ''B'' ''#222'', DeleteCategory 1,
      AddCategory ''C'' ''#333'']) = [1, 2, 3] \<and>
   sorted_wrt (<) (fst (run_cat_ops \<lparr>categories = [], activities = []\<rparr>
     [AddCategory ''A'' ''#111'', AddCategory ''B'' ''#222'', DeleteCategory 1,
      AddCategory ''C'' ''#333''])) \<and>
   distinct (fst (run_cat_ops \<lparr>categories = [], activities = []\<rparr>
     [AddCategory ''A'' ''#111'', AddCategory ''B'' ''#222'', DeleteCategory 1,
      AddCategory ''C'' ''#333''])) \<and>
   fst (add_category \<lparr>categories = [], activities = []\<rparr> ''A'' ''#111'') = 1 \<and>
   spares_latest
     \<lparr>categories = [\<lparr>cat_id = - 5, cat_name = ''X'', cat_color = ''#000''\<rparr>,
                    \<lparr>cat_id = - 2, cat_name = ''Y'', cat_color = ''#fff''\<rparr>],
      activities = []\<rparr> None [DeleteCategory (- 5), AddCategory ''A'' ''#111''] \<and>
   fst (add_category
     \<lparr>categories = [\<lparr>cat_id = - 5, cat_name = ''X'', cat_color = ''#000''\<rparr>,
                    \<lparr>cat_id = - 2, cat_name = ''Y'', cat_color = ''#fff''\<rparr>],
      activities = []\<rparr> ''A'' ''#111'') = - 1"
proof -
  have sp: "spares_latest \<lparr>categories = [], activities = []\<rparr> None
     [AddCategory ''A'' ''#111'', AddCategory ''B'' ''#222'', DeleteCategory 1,
      AddCategory ''C'' ''#333'']"
    by (simp add: add_category_def delete_category_def new_id_def)
  have ids: "fst (run_cat_ops \<lparr>categories = [], activities = []\<rparr>
     [AddCategory ''A'' ''#111'', AddCategory ''B'' ''#222'', DeleteCategory 1,
      AddCategory ''C'' ''#333'']) = [1, 2, 3]"
    by (simp add: add_category_def delete_category_def new_id_def)
  note empty = add_category_ids_increasing [OF sp, of "''A''" "''#111''"]
  have first: "fst (add_category \<lparr>categories = [], activities = []\<rparr> ''A'' ''#111'') = 1"
    using empty [THEN conjunct2, THEN conjunct2, THEN conjunct2] by simp
  have sp2: "spares_latest
     \<lparr>categories = [\<lparr>cat_id = - 5, cat_name = ''X'', cat_color = ''#000''\<rparr>,
                    \<lparr>cat_id = - 2, cat_name = ''Y'', cat_color = ''#fff''\<rparr>],
      activities = []\<rparr> None [DeleteCategory (- 5), AddCategory ''A'' ''#111'']"
    by (simp add: add_category_def delete_category_def new_id_def)
  note negative = add_category_ids_increasing [OF sp2, of "''A''" "''#111''"]
  have neg: "fst (add_category
     \<lparr>categories = [\<lparr>cat_id = - 5, cat_name = ''X'', cat_color = ''#000''\<rparr>,
                    \<lparr>cat_id = - 2, cat_name = ''Y'', cat_color = ''#fff''\<rparr>],
      activities = []\<rparr> ''A'' ''#111'') = - 1"
    using negative [THEN conjunct2, THEN conjunct2, THEN conjunct2] by simp
  from sp ids empty [THEN conjunct1] empty [THEN conjunct2, THEN conjunct1] first sp2 neg
  show ?thesis
    by (intro conjI)
qed

theorem add_category_id_reused:
  "fst (run_cat_ops \<lparr>categories = [], activities = []\<rparr>
     [AddCategory ''A'' ''#111'', AddCategory ''B'' ''#222'', DeleteCategory 2,
      AddCategory ''C'' ''#333'']) = [1, 2, 2] \<and>
   \<not> sorted_wrt (<) (fst (run_cat_ops \<lparr>categories = [], activities = []\<rparr>
     [AddCategory ''A'' ''#111'', AddCategory ''B'' ''#222'', DeleteCategory 2,
      AddCategory ''C'' ''#333''])) \<and>
   \<not> distinct (fst (run_cat_ops \<lparr>categories = [], activities = []\<rparr>
     [AddCategory ''A'' ''#111'', AddCategory ''B'' ''#222'', DeleteCategory 2,
      AddCategory ''C'' ''#333'']))"
  by (simp add: add_category_def delete_category_def new_id_def)

section \<open>Month navigation\<close>

text \<open>
  Claim C7, as the code has it. For a current date with \<open>1 \<le> year \<le> 9999\<close> and
  \<open>1 \<le> month \<le> 12\<close>, previous-month navigation yields the first day of (year-1, 12) from
  month 1 and of (year, month-1) otherwise, and next-month navigation the first day of
  (year+1, 1) from month 12 and of (year, month+1) otherwise, except at the ends of the
  range of \<^verbatim>\<open>datetime\<close>: previous from (1, 1) and next from (9999, 12) raise
  \<^verbatim>\<open>ValueError\<close>. Both results depend on the year and month of the current date only.
\<close>

theorem month_navigation:
  assumes "1 \<le> year cur" and "year cur \<le> 9999" and "1 \<le> month cur" and "month cur \<le> 12"
  shows "prev_month cur =
           (if year cur = 1 \<and> month cur = 1 then Inl ValueError
            else if month cur = 1 then Inr \<lparr>year = year cur - 1, month = 12, day = 1\<rparr>
            else Inr \<lparr>year = year cur, month = month cur - 1, day = 1\<rparr>) \<and>
         next_month cur =
           (if year cur = 9999 \<and> month cur = 12 then Inl ValueError
            else if month cur = 12 then Inr \<lparr>year = year cur + 1, month = 1, day = 1\<rparr>
            else Inr \<lparr>year = year cur, month = month cur + 1, day = 1\<rparr>) \<and>
         (year other = year cur \<and> month other = month cur \<longrightarrow>
            prev_month other = prev_month cur \<and> next_month other = next_month cur)"
proof -
  have d: "1 \<le> days_in_month y m" for y m
    by (simp add: days_in_month_def)
  have p: "prev_month cur =
           (if year cur = 1 \<and> month cur = 1 then Inl ValueError
            else if month cur = 1 then Inr \<lparr>year = year cur - 1, month = 12, day = 1\<rparr>
            else Inr \<lparr>year = year cur, month = month cur - 1, day = 1\<rparr>)"
    using assms by (auto simp: prev_month_def new_datetime_def Let_def d)
  have n: "next_month cur =
           (if year cur = 9999 \<and> month cur = 12 then Inl ValueError
            else if month cur = 12 then Inr \<lparr>year = year cur + 1, month = 1, day = 1\<rparr>
            else Inr \<lparr>year = year cur, month = month cur + 1, day = 1\<rparr>)"
    using assms by (auto simp: next_month_def new_datetime_def Let_def d)
  have f: "year other = year cur \<and> month other = month cur \<longrightarrow>
            prev_month other = prev_month cur \<and> next_month other = next_month cur"
    by (simp add: prev_month_def next_month_def)
  from p n f show ?thesis by blast
qed

theorem month_navigation_witness:
  "1 \<le> year \<lparr>year = 2025, month = 1, day = 17\<rparr> \<and>
   year \<lparr>year = 2025, month = 1, day = 17\<rparr> \<le> 9999 \<and>
   1 \<le> month \<lparr>year = 2025, month = 1, day = 17\<rparr> \<and>
   month \<lparr>year = 2025, month = 1, day = 17\<rparr> \<le> 12 \<and>
   prev_month \<lparr>year = 2025, month = 1, day = 17\<rparr> = Inr \<lparr>year = 2024, month = 12, day = 1\<rparr> \<and>
   next_month \<lparr>year = 2025, month = 1, day = 17\<rparr> = Inr \<lparr>year = 2025, month = 2, day = 1\<rparr> \<and>
   prev_month \<lparr>year = 2025, month = 1, day = 3\<rparr> = prev_month \<lparr>year = 2025, month = 1, day = 17\<rparr> \<and>
   next_month \<lparr>year = 2025, month = 1, day = 3\<rparr> = next_month \<lparr>year = 2025, month = 1, day = 17\<rparr>"
  using month_navigation [of "\<lparr>year = 2025, month = 1, day = 17\<rparr>"
                              "\<lparr>year = 2025, month = 1, day = 3\<rparr>"]
  by simp

theorem month_navigation_year_range:
  "prev_month \<lparr>year = 1, month = 1, day = 1\<rparr> = Inl ValueError \<and>
   prev_month \<lparr>year = 1, month = 1, day = 1\<rparr> \<noteq> Inr \<lparr>year = 0, month = 12, day = 1\<rparr> \<and>
   next_month \<lparr>year = 9999, month = 12, day = 1\<rparr> = Inl ValueError \<and>
   next_month \<lparr>year = 9999, month = 12, day = 1\<rparr> \<noteq> Inr \<lparr>year = 10000, month = 1, day = 1\<rparr>"
  by (simp add: prev_month_def next_month_def new_datetime_def)

section \<open>Activity indicators\<close>

lemma map_fst_by_category_add:
  "map fst (by_category_add a bc) =
     (if act_category_id a \<in> set (map fst bc) then map fst bc
      else map fst bc @ [act_category_id a])"
  by (auto simp: by_category_add_def Let_def case_prod_unfold comp_def)

lemma by_category_keys:
  "distinct (map fst bc) \<Longrightarrow>
   distinct (map fst (fold by_category_add acts bc)) \<and>
   set (map fst (fold by_category_add acts bc)) = set (map fst bc) \<union> act_category_id ` set acts"
proof (induction acts arbitrary: bc)
  case Nil
  then show ?case by simp
next
  case (Cons a acts)
  have d: "distinct (map fst (by_category_add a bc))"
    using Cons.prems by (simp add: map_fst_by_category_add)
  have s: "set (map fst (by_category_add a bc)) = insert (act_category_id a) (set (map fst bc))"
    by (auto simp: map_fst_by_category_add)
  from Cons.IH [OF d] show ?case
    unfolding fold_simps s by auto
qed

lemma categories_by_id_fold:
  "fold (\<lambda>cat m. m(cat_id cat \<mapsto> cat)) cats m k = Some c \<Longrightarrow>
   (c \<in> set cats \<and> cat_id c = k) \<or> m k = Some c"
proof (induction cats arbitrary: m)
  case Nil
  then show ?case by simp
next
  case (Cons x cats)
  from Cons.prems have "fold (\<lambda>cat m. m(cat_id cat \<mapsto> cat)) cats (m(cat_id x \<mapsto> x)) k = Some c"
    by (simp only: fold_simps)
  from Cons.IH [OF this] show ?case
    by (auto split: if_splits)
qed

lemma categories_by_id_dom_fold:
  "dom (fold (\<lambda>cat m. m(cat_id cat \<mapsto> cat)) cats m) = dom m \<union> cat_id ` set cats"
  by (induction cats arbitrary: m) auto

lemma categories_by_id_Some:
  "categories_by_id cats k = Some c \<Longrightarrow> c \<in> set cats \<and> cat_id c = k"
  using categories_by_id_fold [of cats Map.empty k c] by (simp add: categories_by_id_def)

lemma categories_by_id_dom: "dom (categories_by_id cats) = cat_id ` set cats"
  by (simp add: categories_by_id_def categories_by_id_dom_fold)

lemma indicator_colours:
  "concat (map (\<lambda>(k, acts). case cats k of None \<Rightarrow> [] | Some cat \<Rightarrow> [cat_color cat]) bc) =
   map (\<lambda>k. cat_color (the (cats k))) (filter (\<lambda>k. k \<in> dom cats) (map fst bc))"
  by (induction bc) (auto split: option.splits)

lemma get_activities_single_day:
  "s \<noteq> [] \<Longrightarrow>
   get_activities data (Some s) (Some s) None = filter (\<lambda>a. act_date a = s) (activities data)"
proof -
  assume s: "s \<noteq> []"
  have both: "(s \<le> x \<and> x \<le> s) = (x = s)" for x :: string
    by auto
  show ?thesis
    using s by (simp add: get_activities_def both)
qed

text \<open>
  Claim C6. For a cell with a date, whose formatted date string is not empty, there is a
  list of pairwise distinct category ids, exactly the ids that some activity on that date
  carries and some category has, and the indicators are the colours of these categories,
  one indicator per id; so two activities of one category give one indicator, and an
  activity whose category id no category has gives none. A cell without a date has no
  indicator.
\<close>

theorem indicators_per_category:
  assumes "strftime d \<noteq> []"
  shows "\<exists>ks. distinct ks \<and>
           set ks = {k. (\<exists>a \<in> set (activities data).
                           act_date a = strftime d \<and> act_category_id a = k) \<and>
                        (\<exists>c \<in> set (categories data). cat_id c = k)} \<and>
           add_activity_indicators strftime data (Some d) =
             map (\<lambda>k. cat_color (the (categories_by_id (categories data) k))) ks \<and>
           (\<forall>k \<in> set ks. \<exists>c \<in> set (categories data).
              cat_id c = k \<and> categories_by_id (categories data) k = Some c) \<and>
           length (add_activity_indicators strftime data (Some d)) = length ks \<and>
           add_activity_indicators strftime data None = []"
proof -
  define acts where "acts = filter (\<lambda>a. act_date a = strftime d) (activities data)"
  define cats where "cats = categories_by_id (categories data)"
  define keys where "keys = map fst (fold by_category_add acts [])"
  define ks where "ks = filter (\<lambda>k. k \<in> dom cats) keys"
  have get: "get_activities data (Some (strftime d)) (Some (strftime d)) None = acts"
    using assms by (simp add: acts_def get_activities_single_day)
  have keys: "distinct keys" "set keys = act_category_id ` set acts"
    using by_category_keys [of "[]" acts] by (simp_all add: keys_def)
  have ind: "add_activity_indicators strftime data (Some d) =
      map (\<lambda>k. cat_color (the (cats k))) ks"
    by (simp add: add_activity_indicators_def get get_categories_def Let_def
          indicator_colours ks_def keys_def cats_def)
  have dist: "distinct ks"
    using keys(1) by (simp add: ks_def)
  have dom: "dom cats = cat_id ` set (categories data)"
    by (simp add: cats_def categories_by_id_dom)
  have set: "set ks = {k. (\<exists>a \<in> set (activities data).
                           act_date a = strftime d \<and> act_category_id a = k) \<and>
                        (\<exists>c \<in> set (categories data). cat_id c = k)}"
    unfolding ks_def set_filter keys(2) dom by (fastforce simp: acts_def image_iff)
  have some: "\<forall>k \<in> set ks. \<exists>c \<in> set (categories data). cat_id c = k \<and> cats k = Some c"
  proof
    fix k assume "k \<in> set ks"
    then have "k \<in> dom cats" by (simp add: ks_def)
    then obtain c where c: "cats k = Some c" by blast
    then have "c \<in> set (categories data) \<and> cat_id c = k"
      unfolding cats_def by (rule categories_by_id_Some)
    with c show "\<exists>c \<in> set (categories data). cat_id c = k \<and> cats k = Some c" by blast
  qed
  have len: "length (add_activity_indicators strftime data (Some d)) = length ks"
    by (simp add: ind)
  have none: "add_activity_indicators strftime data None = []"
    by (simp add: add_activity_indicators_def)
  from dist set ind some len none show ?thesis
    unfolding cats_def by blast
qed

theorem indicators_per_category_witness:
  "strftime_ymd \<lparr>year = 2025, month = 1, day = 15\<rparr> \<noteq> [] \<and>
   add_activity_indicators strftime_ymd fixture (Some \<lparr>year = 2025, month = 1, day = 15\<rparr>)
     = [''#FF5733'', ''#33A8FF''] \<and>
   add_activity_indicators strftime_ymd fixture (Some \<lparr>year = 2025, month = 1, day = 25\<rparr>)
     = [] \<and>
   (\<exists>ks. distinct ks \<and>
      set ks = {k. (\<exists>a \<in> set (activities fixture).
                      act_date a = strftime_ymd \<lparr>year = 2025, month = 1, day = 15\<rparr> \<and>
                      act_category_id a = k) \<and>
                   (\<exists>c \<in> set (categories fixture). cat_id c = k)} \<and>
      add_activity_indicators strftime_ymd fixture (Some \<lparr>year = 2025, month = 1, day = 15\<rparr>) =
        map (\<lambda>k. cat_color (the (categories_by_id (categories fixture) k))) ks \<and>
      (\<forall>k \<in> set ks. \<exists>c \<in> set (categories fixture).
         cat_id c = k \<and> categories_by_id (categories fixture) k = Some c) \<and>
      length (add_activity_indicators strftime_ymd fixture
                (Some \<lparr>year = 2025, month = 1, day = 15\<rparr>)) = length ks \<and>
      add_activity_indicators strftime_ymd fixture None = [])"
proof -
  have f15: "strftime_ymd \<lparr>year = 2025, month = 1, day = 15\<rparr> = ''2025-01-15''"
    by (simp add: strftime_ymd_def digit_def)
  have f25: "strftime_ymd \<lparr>year = 2025, month = 1, day = 25\<rparr> = ''2025-01-25''"
    by (simp add: strftime_ymd_def digit_def)
  have ne: "strftime_ymd \<lparr>year = 2025, month = 1, day = 15\<rparr> \<noteq> []"
    by (simp add: f15)
  have i15: "add_activity_indicators strftime_ymd fixture
               (Some \<lparr>year = 2025, month = 1, day = 15\<rparr>) = [''#FF5733'', ''#33A8FF'']"
    by (simp add: add_activity_indicators_def f15 get_activities_def get_categories_def
          fixture_def initial_document_def by_category_add_def categories_by_id_def)
  have i25: "add_activity_indicators strftime_ymd fixture
               (Some \<lparr>year = 2025, month = 1, day = 25\<rparr>) = []"
    by (simp add: add_activity_indicators_def f25 get_activities_def get_categories_def
          fixture_def initial_document_def by_category_add_def categories_by_id_def)
  from ne i15 i25 indicators_per_category
      [of strftime_ymd "\<lparr>year = 2025, month = 1, day = 15\<rparr>" fixture] show ?thesis
    by blast
qed

end
